theory Spec2Isabelle
  imports Main
begin

section \<open>The Python fragment of \<^verbatim>\<open>docs/conf.py\<close>\<close>

text \<open>
  The repository's only source file is \<^verbatim>\<open>docs/conf.py\<close>, the module Sphinx
  executes to obtain its settings. The module is a sequence of assignment statements
  whose right-hand sides are string literals, the constant \<^verbatim>\<open>True\<close>, list
  displays and dict displays. The syntax below is wider than the module needs: it also
  has names, calls and function definitions, so that "the module defines no function",
  "the module calls nothing" and "the module reads nothing" are statements that could
  fail.

  A Python \<^verbatim>\<open>str\<close> is a sequence of code points; every code point of the module
  is below 256, so a \<open>string\<close> holds one \<open>char\<close> per code point (the u-umlaut
  of the author's name is \<open>CHR 0xFC\<close>). Comments and trailing commas are not part of
  the syntax tree, as in Python's own parser.
\<close>

datatype expr =
    StrLit string
  | BoolLit bool
  | ListDisplay "expr list"
  | DictDisplay "(expr \<times> expr) list"
  | Name string
  | Call expr "expr list"

datatype stmt =
    Assign string expr
  | ExprStmt expr
  | FunctionDef string "string list" "stmt list"

datatype val =
    VStr string
  | VBool bool
  | VList "val list"
  | VDict "(val \<times> val) list"
  | VFunction string "string list" "stmt list"
  | VBuiltin string

datatype error = NameError string | TypeError string | Raised string

text \<open>
  A namespace is a Python dict from names to values; dicts keep insertion order, and
  storing under a key that is present replaces the value where the key stands.
\<close>

type_synonym namespace = "(string \<times> val) list"

fun dict_store :: "('k \<times> 'v) list \<Rightarrow> 'k \<Rightarrow> 'v \<Rightarrow> ('k \<times> 'v) list" where
  "dict_store [] k v = [(k, v)]"
| "dict_store ((k', v') # d) k v =
     (if k' = k then (k', v) # d else (k', v') # dict_store d k v)"

text \<open>Lists and dicts are unhashable: as a dict key they raise \<^verbatim>\<open>TypeError\<close>.\<close>

fun hashable :: "val \<Rightarrow> bool" where
  "hashable (VList _) = False"
| "hashable (VDict _) = False"
| "hashable _ = True"

fun build_dict :: "(val \<times> val) list \<Rightarrow> (val \<times> val) list \<Rightarrow> error + (val \<times> val) list" where
  "build_dict d [] = Inr d"
| "build_dict d ((k, v) # items) =
     (if hashable k then build_dict (dict_store d k v) items
      else Inl (TypeError ''unhashable type''))"

text \<open>
  Everything outside the module that evaluation could consult: the names the
  interpreter predefines, and the outcome of calling a callable on arguments (which may
  read the environment, the file system or the command line). Every call is recorded
  in a trace, in the order it happens.
\<close>

record world =
  builtins :: "string \<Rightarrow> val option"
  invoke :: "val \<Rightarrow> val list \<Rightarrow> error + val"

type_synonym trace = "(val \<times> val list) list"

function (sequential)
  eval :: "world \<Rightarrow> namespace \<Rightarrow> expr \<Rightarrow> error + val \<times> trace" and
  eval_list :: "world \<Rightarrow> namespace \<Rightarrow> expr list \<Rightarrow> error + val list \<times> trace" and
  eval_items :: "world \<Rightarrow> namespace \<Rightarrow> (expr \<times> expr) list
                   \<Rightarrow> error + (val \<times> val) list \<times> trace"
where
  "eval w ns (StrLit s) = Inr (VStr s, [])"
| "eval w ns (BoolLit b) = Inr (VBool b, [])"
| "eval w ns (ListDisplay es) =
     (case eval_list w ns es of
        Inl x \<Rightarrow> Inl x
      | Inr (vs, t) \<Rightarrow> Inr (VList vs, t))"
| "eval w ns (DictDisplay kvs) =
     (case eval_items w ns kvs of
        Inl x \<Rightarrow> Inl x
      | Inr (items, t) \<Rightarrow>
          (case build_dict [] items of
             Inl x \<Rightarrow> Inl x
           | Inr d \<Rightarrow> Inr (VDict d, t)))"
| "eval w ns (Name n) =
     (case map_of ns n of
        Some v \<Rightarrow> Inr (v, [])
      | None \<Rightarrow>
          (case builtins w n of
             Some v \<Rightarrow> Inr (v, [])
           | None \<Rightarrow> Inl (NameError n)))"
| "eval w ns (Call f args) =
     (case eval w ns f of
        Inl x \<Rightarrow> Inl x
      | Inr (fv, t1) \<Rightarrow>
          (case eval_list w ns args of
             Inl x \<Rightarrow> Inl x
           | Inr (vs, t2) \<Rightarrow>
               (case invoke w fv vs of
                  Inl x \<Rightarrow> Inl x
                | Inr r \<Rightarrow> Inr (r, t1 @ t2 @ [(fv, vs)]))))"
| "eval_list w ns [] = Inr ([], [])"
| "eval_list w ns (e # es) =
     (case eval w ns e of
        Inl x \<Rightarrow> Inl x
      | Inr (v, t1) \<Rightarrow>
          (case eval_list w ns es of
             Inl x \<Rightarrow> Inl x
           | Inr (vs, t2) \<Rightarrow> Inr (v # vs, t1 @ t2)))"
| "eval_items w ns [] = Inr ([], [])"
| "eval_items w ns ((k, v) # kvs) =
     (case eval w ns k of
        Inl x \<Rightarrow> Inl x
      | Inr (kv, t1) \<Rightarrow>
          (case eval w ns v of
             Inl x \<Rightarrow> Inl x
           | Inr (vv, t2) \<Rightarrow>
               (case eval_items w ns kvs of
                  Inl x \<Rightarrow> Inl x
                | Inr (items, t3) \<Rightarrow> Inr ((kv, vv) # items, t1 @ t2 @ t3))))"
  by pat_completeness auto
termination
  by (relation "measure (\<lambda>x. case x of
        Inl (w, ns, e) \<Rightarrow> size e
      | Inr (Inl (w, ns, es)) \<Rightarrow> size_list size es
      | Inr (Inr (w, ns, kvs)) \<Rightarrow> size_list (size_prod size size) kvs)") auto

text \<open>
  A statement runs in the module's namespace and returns the namespace it leaves.
  A function definition binds its name to a function object and runs nothing.
\<close>

fun exec_stmt :: "world \<Rightarrow> namespace \<Rightarrow> stmt \<Rightarrow> error + namespace \<times> trace" where
  "exec_stmt w ns (Assign n e) =
     (case eval w ns e of
        Inl x \<Rightarrow> Inl x
      | Inr (v, t) \<Rightarrow> Inr (dict_store ns n v, t))"
| "exec_stmt w ns (ExprStmt e) =
     (case eval w ns e of
        Inl x \<Rightarrow> Inl x
      | Inr (v, t) \<Rightarrow> Inr (ns, t))"
| "exec_stmt w ns (FunctionDef n ps body) = Inr (dict_store ns n (VFunction n ps body), [])"

text \<open>A module's statements run in order; the first exception ends the run.\<close>

fun exec_module :: "world \<Rightarrow> namespace \<Rightarrow> stmt list \<Rightarrow> error + namespace \<times> trace" where
  "exec_module w ns [] = Inr (ns, [])"
| "exec_module w ns (s # ss) =
     (case exec_stmt w ns s of
        Inl x \<Rightarrow> Inl x
      | Inr (ns', t1) \<Rightarrow>
          (case exec_module w ns' ss of
             Inl x \<Rightarrow> Inl x
           | Inr (ns'', t2) \<Rightarrow> Inr (ns'', t1 @ t2)))"

section \<open>The module\<close>

text \<open>\<^verbatim>\<open>docs/conf.py\<close>, statement by statement, in the file's order.\<close>

definition conf_py :: "stmt list" where
  "conf_py =
    [Assign ''project'' (StrLit ''Go-Short-Link''),
     Assign ''copyright'' (StrLit (''2025, Fabian W'' @ [CHR 0xFC] @ ''nderich'')),
     Assign ''author'' (StrLit (''Fabian W'' @ [CHR 0xFC] @ ''nderich'')),
     Assign ''version'' (StrLit ''1''),
     Assign ''extensions'' (ListDisplay
       [StrLit ''myst_parser'',
        StrLit ''sphinx_rtd_theme'',
        StrLit ''sphinx_toolbox.collapse'']),
     Assign ''templates_path'' (ListDisplay [StrLit ''_templates'']),
     Assign ''exclude_patterns'' (ListDisplay
       [StrLit ''_build'', StrLit ''Thumbs.db'', StrLit ''.DS_Store'',
        StrLit ''requirements.txt'']),
     Assign ''html_theme'' (StrLit ''sphinx_rtd_theme''),
     Assign ''html_static_path'' (ListDisplay [StrLit ''_static'']),
     Assign ''html_css_files'' (ListDisplay [StrLit ''css/custom.css'']),
     Assign ''html_js_files'' (ListDisplay [StrLit ''js/custom.js'']),
     Assign ''source_suffix'' (DictDisplay
       [(StrLit ''.rst'', StrLit ''restructuredtext''),
        (StrLit ''.txt'', StrLit ''markdown''),
        (StrLit ''.md'', StrLit ''markdown'')]),
     Assign ''myst_enable_extensions'' (ListDisplay
       [StrLit ''amsmath'',
        StrLit ''attrs_inline'',
        StrLit ''colon_fence'',
        StrLit ''deflist'',
        StrLit ''dollarmath'',
        StrLit ''fieldlist'',
        StrLit ''html_admonition'',
        StrLit ''html_image'',
        StrLit ''linkify'',
        StrLit ''replacements'',
        StrLit ''smartquotes'',
        StrLit ''strikethrough'',
        StrLit ''substitution'',
        StrLit ''tasklist'']),
     Assign ''html_context'' (DictDisplay
       [(StrLit ''display_github'', BoolLit True),
        (StrLit ''github_user'', StrLit ''fanonwue''),
        (StrLit ''github_repo'', StrLit ''go-short-link''),
        (StrLit ''github_version'', StrLit ''master''),
        (StrLit ''conf_py_path'', StrLit ''/docs/'')])]"

text \<open>
  The values the module's right-hand sides denote, in the same order. That running the
  module stores exactly these is lemma \<open>exec_conf_py\<close> below.
\<close>

definition conf_bindings :: "(string \<times> val) list" where
  "conf_bindings =
    [(''project'', VStr ''Go-Short-Link''),
     (''copyright'', VStr (''2025, Fabian W'' @ [CHR 0xFC] @ ''nderich'')),
     (''author'', VStr (''Fabian W'' @ [CHR 0xFC] @ ''nderich'')),
     (''version'', VStr ''1''),
     (''extensions'', VList
       [VStr ''myst_parser'', VStr ''sphinx_rtd_theme'', VStr ''sphinx_toolbox.collapse'']),
     (''templates_path'', VList [VStr ''_templates'']),
     (''exclude_patterns'', VList
       [VStr ''_build'', VStr ''Thumbs.db'', VStr ''.DS_Store'', VStr ''requirements.txt'']),
     (''html_theme'', VStr ''sphinx_rtd_theme''),
     (''html_static_path'', VList [VStr ''_static'']),
     (''html_css_files'', VList [VStr ''css/custom.css'']),
     (''html_js_files'', VList [VStr ''js/custom.js'']),
     (''source_suffix'', VDict
       [(VStr ''.rst'', VStr ''restructuredtext''),
        (VStr ''.txt'', VStr ''markdown''),
        (VStr ''.md'', VStr ''markdown'')]),
     (''myst_enable_extensions'', VList
       [VStr ''amsmath'', VStr ''attrs_inline'', VStr ''colon_fence'', VStr ''deflist'',
        VStr ''dollarmath'', VStr ''fieldlist'', VStr ''html_admonition'',
        VStr ''html_image'', VStr ''linkify'', VStr ''replacements'', VStr ''smartquotes'',
        VStr ''strikethrough'', VStr ''substitution'', VStr ''tasklist'']),
     (''html_context'', VDict
       [(VStr ''display_github'', VBool True),
        (VStr ''github_user'', VStr ''fanonwue''),
        (VStr ''github_repo'', VStr ''go-short-link''),
        (VStr ''github_version'', VStr ''master''),
        (VStr ''conf_py_path'', VStr ''/docs/'')])]"

fun store_all :: "namespace \<Rightarrow> (string \<times> val) list \<Rightarrow> namespace" where
  "store_all ns [] = ns"
| "store_all ns ((n, v) # bs) = store_all (dict_store ns n v) bs"

subsection \<open>Reading a module's syntax\<close>

text \<open>Every expression node of an expression, the expression itself first.\<close>

function (sequential)
  subexprs :: "expr \<Rightarrow> expr list" and
  subexprs_list :: "expr list \<Rightarrow> expr list" and
  subexprs_items :: "(expr \<times> expr) list \<Rightarrow> expr list"
where
  "subexprs (ListDisplay es) = ListDisplay es # subexprs_list es"
| "subexprs (DictDisplay kvs) = DictDisplay kvs # subexprs_items kvs"
| "subexprs (Call f args) = Call f args # subexprs f @ subexprs_list args"
| "subexprs e = [e]"
| "subexprs_list [] = []"
| "subexprs_list (e # es) = subexprs e @ subexprs_list es"
| "subexprs_items [] = []"
| "subexprs_items ((k, v) # kvs) = subexprs k @ subexprs v @ subexprs_items kvs"
  by pat_completeness auto
termination
  by (relation "measure (\<lambda>x. case x of
        Inl e \<Rightarrow> size e
      | Inr (Inl es) \<Rightarrow> size_list size es
      | Inr (Inr kvs) \<Rightarrow> size_list (size_prod size size) kvs)") auto

text \<open>
  The expressions a statement evaluates when the module runs. A function definition
  evaluates none: its body runs only when the function is called.
\<close>

fun stmt_exprs :: "stmt \<Rightarrow> expr list" where
  "stmt_exprs (Assign n e) = subexprs e"
| "stmt_exprs (ExprStmt e) = subexprs e"
| "stmt_exprs (FunctionDef n ps body) = []"

fun is_name :: "expr \<Rightarrow> bool" where
  "is_name (Name n) = True"
| "is_name _ = False"

fun is_call :: "expr \<Rightarrow> bool" where
  "is_call (Call f args) = True"
| "is_call _ = False"

fun is_function_def :: "stmt \<Rightarrow> bool" where
  "is_function_def (FunctionDef n ps body) = True"
| "is_function_def _ = False"

text \<open>
  A constant binding is an assignment whose right-hand side reads no name and calls
  nothing: a literal, or a display of literals.
\<close>

fun constant_binding :: "stmt \<Rightarrow> bool" where
  "constant_binding (Assign n e) =
     (filter is_name (subexprs e) = [] \<and> filter is_call (subexprs e) = [])"
| "constant_binding _ = False"

text \<open>The names a module binds, in the order of its statements.\<close>

fun assigned_names :: "stmt list \<Rightarrow> string list" where
  "assigned_names [] = []"
| "assigned_names (Assign n e # ss) = n # assigned_names ss"
| "assigned_names (FunctionDef n ps body # ss) = n # assigned_names ss"
| "assigned_names (ExprStmt e # ss) = assigned_names ss"

subsection \<open>Reading a module's values\<close>

text \<open>Every value inside a value (list elements, dict keys and dict values), itself first.\<close>

function (sequential)
  subvalues :: "val \<Rightarrow> val list" and
  subvalues_list :: "val list \<Rightarrow> val list" and
  subvalues_items :: "(val \<times> val) list \<Rightarrow> val list"
where
  "subvalues (VList vs) = VList vs # subvalues_list vs"
| "subvalues (VDict items) = VDict items # subvalues_items items"
| "subvalues v = [v]"
| "subvalues_list [] = []"
| "subvalues_list (v # vs) = subvalues v @ subvalues_list vs"
| "subvalues_items [] = []"
| "subvalues_items ((k, v) # items) = subvalues k @ subvalues v @ subvalues_items items"
  by pat_completeness auto
termination
  by (relation "measure (\<lambda>x. case x of
        Inl v \<Rightarrow> size v
      | Inr (Inl vs) \<Rightarrow> size_list size vs
      | Inr (Inr items) \<Rightarrow> size_list (size_prod size size) items)") auto

fun is_data :: "val \<Rightarrow> bool" where
  "is_data (VFunction n ps body) = False"
| "is_data (VBuiltin n) = False"
| "is_data _ = True"

text \<open>A data value holds strings, booleans, lists and dicts only, at every depth.\<close>

definition data_value :: "val \<Rightarrow> bool" where
  "data_value v = list_all is_data (subvalues v)"

fun elements :: "val \<Rightarrow> val list" where
  "elements (VList vs) = vs"
| "elements _ = []"

fun dict_items :: "val \<Rightarrow> (val \<times> val) list" where
  "dict_items (VDict items) = items"
| "dict_items _ = []"

definition dict_get :: "val \<Rightarrow> val \<Rightarrow> val option" where
  "dict_get d k = map_of (dict_items d) k"

subsection \<open>Running the module\<close>

text \<open>
  The module runs in a world \<open>w\<close> and a starting namespace \<open>ns\<close> (Sphinx
  passes one that holds \<^verbatim>\<open>__file__\<close> and \<^verbatim>\<open>tags\<close>). \<open>setting\<close> is
  the value a name has once the module has run; \<open>conf_settings\<close> is the value of
  every name the module binds, with the trace of the calls the run made.
\<close>

definition setting :: "world \<Rightarrow> namespace \<Rightarrow> string \<Rightarrow> val option" where
  "setting w ns n =
     (case exec_module w ns conf_py of
        Inl x \<Rightarrow> None
      | Inr (ns', t) \<Rightarrow> map_of ns' n)"

definition conf_settings ::
  "world \<Rightarrow> namespace \<Rightarrow> error + (string \<times> val option) list \<times> trace" where
  "conf_settings w ns =
     (case exec_module w ns conf_py of
        Inl x \<Rightarrow> Inl x
      | Inr (ns', t) \<Rightarrow> Inr (map (\<lambda>n. (n, map_of ns' n)) (assigned_names conf_py), t))"

subsection \<open>Strings\<close>

text \<open>Lower-casing of the ASCII letters; every other character stays.\<close>

definition ascii_lower :: "char \<Rightarrow> char" where
  "ascii_lower c =
     (case map_of (zip ''ABCDEFGHIJKLMNOPQRSTUVWXYZ'' ''abcdefghijklmnopqrstuvwxyz'') c of
        Some l \<Rightarrow> l
      | None \<Rightarrow> c)"

text \<open>Python's \<^verbatim>\<open>s.startswith(p)\<close>, \<^verbatim>\<open>p in s\<close> and \<^verbatim>\<open>s.endswith(p)\<close>.\<close>

fun starts_with :: "string \<Rightarrow> string \<Rightarrow> bool" where
  "starts_with s [] = True"
| "starts_with [] (p # ps) = False"
| "starts_with (c # cs) (p # ps) = (c = p \<and> starts_with cs ps)"

fun contains :: "string \<Rightarrow> string \<Rightarrow> bool" where
  "contains [] p = (p = [])"
| "contains (c # cs) p = (starts_with (c # cs) p \<or> contains cs p)"

definition ends_with :: "string \<Rightarrow> string \<Rightarrow> bool" where
  "ends_with s p = starts_with (rev s) (rev p)"

fun is_str :: "val \<Rightarrow> bool" where
  "is_str (VStr s) = True"
| "is_str _ = False"

fun str_of :: "val \<Rightarrow> string" where
  "str_of (VStr s) = s"
| "str_of _ = []"

text \<open>Every string inside a value, dict keys included.\<close>

definition strings_of :: "val \<Rightarrow> string list" where
  "strings_of v = map str_of (filter is_str (subvalues v))"

text \<open>A value mentions a word when one of its strings holds it, in any letter case.\<close>

definition mentions :: "string \<Rightarrow> val \<Rightarrow> bool" where
  "mentions p v = list_ex (\<lambda>s. contains (map ascii_lower s) p) (strings_of v)"

fun setting_mentions :: "string \<Rightarrow> string \<times> val option \<Rightarrow> bool" where
  "setting_mentions p (n, Some v) = (contains (map ascii_lower n) p \<or> mentions p v)"
| "setting_mentions p (n, None) = contains (map ascii_lower n) p"

text \<open>
  The part of a source line that is code: a \<^verbatim>\<open>#\<close> outside a string literal
  starts a comment that runs to the end of the line. The first argument is the quote
  character of the string literal the scan is inside, if any; a backslash inside a
  literal escapes the character after it.
\<close>

fun code_part :: "char option \<Rightarrow> string \<Rightarrow> string" where
  "code_part q [] = []"
| "code_part None (c # cs) =
     (if c = CHR ''#'' then []
      else if c = CHR 0x27 \<or> c = CHR 0x22 then c # code_part (Some c) cs
      else c # code_part None cs)"
| "code_part (Some q) [c] = [c]"
| "code_part (Some q) (c # d # cs) =
     (if c = CHR 0x5C then c # d # code_part (Some q) cs
      else if c = q then c # code_part None (d # cs)
      else c # code_part (Some q) (d # cs))"

text \<open>Line 22 of \<^verbatim>\<open>docs/conf.py\<close>, inside the \<^verbatim>\<open>extensions\<close> list.\<close>

definition conf_py_line_22 :: string where
  "conf_py_line_22 = ''    #'' @ [CHR 0x27] @ ''sphinx_togglebutton'' @ [CHR 0x27]"

subsection \<open>How Sphinx reads two of the settings\<close>

text \<open>
  Sphinx takes a file for a source document when its name ends with a key of
  \<^verbatim>\<open>source_suffix\<close> (the value names the parser; the first key that fits, in
  the dict's order, decides) and no pattern of \<^verbatim>\<open>exclude_patterns\<close> matches
  its path. The patterns are glob patterns; one without \<^verbatim>\<open>*\<close>, \<^verbatim>\<open>?\<close> or
  \<^verbatim>\<open>[\<close> matches the path equal to it, which is all the module's patterns need.
\<close>

fun suffix_parser :: "(val \<times> val) list \<Rightarrow> string \<Rightarrow> val option" where
  "suffix_parser [] f = None"
| "suffix_parser ((k, p) # items) f =
     (if is_str k \<and> ends_with f (str_of k) then Some p else suffix_parser items f)"

definition glob_free :: "val \<Rightarrow> bool" where
  "glob_free v = (filter (\<lambda>c. c = CHR ''*'' \<or> c = CHR ''?'' \<or> c = CHR ''['') (str_of v) = [])"

definition excluded :: "val \<Rightarrow> string \<Rightarrow> bool" where
  "excluded patterns f = (VStr f \<in> set (elements patterns))"

definition build_source :: "val \<Rightarrow> val \<Rightarrow> string \<Rightarrow> val option" where
  "build_source suffixes patterns f =
     (if excluded patterns f then None else suffix_parser (dict_items suffixes) f)"

section \<open>The short-link service the specification describes\<close>

text \<open>
  Sections 2 to 9 of the specification describe a URL shortener: a code generator, a
  mapping store, a resolution engine, a cache layer and an ingestion API. None of it is
  in the repository's files, whose only source is \<^verbatim>\<open>docs/conf.py\<close>; the
  specification itself calls the design a reconstruction. Every definition of this
  section is therefore modelled from the specification's words, and what the words leave
  open is a parameter. Timestamps are natural numbers.
\<close>

text \<open>
  Modelled from the spec: the record LinkMapping of section 3, which is in no source
  file: "shortCode: string (unique, immutable once assigned), targetURL: string,
  createdAt: timestamp, expiresAt: optional timestamp, hitCount: integer counter,
  disabled: boolean", with the owner that sections 2 and 4.5 record for a mapping.
\<close>

record LinkMapping =
  shortCode :: string
  targetURL :: string
  createdAt :: nat
  expiresAt :: "nat option"
  hitCount :: nat
  disabled :: bool
  owner :: string

text \<open>
  Modelled from the spec: the record CacheEntry of section 3, which is in no source
  file: "{ shortCode, targetURL, fetchedAt }". The first two fields are named
  \<open>cachedCode\<close> and \<open>cachedURL\<close> here, apart from the mapping's fields.
\<close>

record CacheEntry =
  cachedCode :: string
  cachedURL :: string
  fetchedAt :: nat

text \<open>
  Modelled from the spec: the error kinds of section 7, which are in no source file:
  NotFound, Conflict, ValidationError, ExhaustionError, Unauthorized, StoreUnavailable.
\<close>

datatype failure =
  NotFound | Conflict | ValidationError | ExhaustionError | Unauthorized | StoreUnavailable

text \<open>
  Modelled from the spec: the answer of the redirect endpoint of section 6, which is in
  no source file: a redirect to the target URL, or a failure.
\<close>

datatype outcome = Redirect string | Failed failure

subsection \<open>Mapping store\<close>

text \<open>
  Modelled from the spec: the point lookup of the Mapping Store (section 4.2), which is
  in no source file: "lookups return NotFound when absent, the mapping when present
  regardless of expiry state". The store is the list of its mappings in the order of
  their creation, so that a short code could stand in it twice: that it never does is a
  property to prove, not a property of the type.
\<close>

definition store_lookup :: "LinkMapping list \<Rightarrow> string \<Rightarrow> LinkMapping option" where
  "store_lookup s c = find (\<lambda>m. shortCode m = c) s"

text \<open>
  Modelled from the spec: the create write of the Mapping Store (section 4.2), which is
  in no source file: of the creates for one code "exactly one wins (the other fails with
  Conflict)".
\<close>

definition store_create :: "LinkMapping list \<Rightarrow> LinkMapping \<Rightarrow> failure + LinkMapping list" where
  "store_create s m =
     (case store_lookup s (shortCode m) of
        Some m' \<Rightarrow> Inl Conflict
      | None \<Rightarrow> Inr (s @ [m]))"

text \<open>
  Modelled from the spec: the update and disable writes of the Mapping Store (section
  4.2), which are in no source file: a write changes the mapping stored under a code,
  where it stands.
\<close>

definition store_write ::
  "LinkMapping list \<Rightarrow> string \<Rightarrow> (LinkMapping \<Rightarrow> LinkMapping) \<Rightarrow> LinkMapping list" where
  "store_write s c f = map (\<lambda>m. if shortCode m = c then f m else m) s"

subsection \<open>Code generator\<close>

text \<open>
  Modelled from the spec: the retry loop of the Code Generator (section 4.1), which is in
  no source file: "produce one not present in the store, retrying with backoff on
  collision up to a bounded attempt count, failing with ExhaustionError if space is
  saturated". The spec does not say where candidate codes come from, so the code tried
  at attempt \<open>i\<close> is the parameter \<open>candidate i\<close>; the bound is the parameter
  \<open>max_attempts\<close>. The loop counts its attempts from \<open>i\<close>; the result carries
  the counter, so that the number of attempts made can be stated. Backoff is a delay and
  has no part in the result.
\<close>

function generate_from ::
  "(nat \<Rightarrow> string) \<Rightarrow> nat \<Rightarrow> LinkMapping list \<Rightarrow> nat \<Rightarrow> (failure + string) \<times> nat" where
  "generate_from candidate max_attempts s i =
     (if max_attempts \<le> i then (Inl ExhaustionError, i)
      else if store_lookup s (candidate i) = None then (Inr (candidate i), Suc i)
      else generate_from candidate max_attempts s (Suc i))"
  by pat_completeness auto
termination
  by (relation "measure (\<lambda>(candidate, max_attempts, s, i). max_attempts - i)") auto

declare generate_from.simps [simp del]

text \<open>
  Modelled from the spec: the Code Generator's entry point (section 4.1), which is in no
  source file: the retry loop from its first attempt.
\<close>

definition generate ::
  "(nat \<Rightarrow> string) \<Rightarrow> nat \<Rightarrow> LinkMapping list \<Rightarrow> (failure + string) \<times> nat" where
  "generate candidate max_attempts s = generate_from candidate max_attempts s 0"

subsection \<open>Cache layer\<close>

text \<open>
  Modelled from the spec: what sections 4 and 5 leave to the deployment, none of it in a
  source file: which target URLs are valid ("well-formed, disallowed schemes rejected"),
  the generator's candidates and attempt bound, the cache's time-to-live and size, and
  what the resolution engine answers on a cache hit. The spec gives a cache entry no
  expiry and no disabled flag and does not say what a hit checks, so the answer on a hit
  is a function of the store, the time and the entry, and nothing is assumed of it.
\<close>

record policy =
  valid_url :: "string \<Rightarrow> bool"
  candidate :: "nat \<Rightarrow> string"
  max_attempts :: nat
  ttl :: nat
  capacity :: nat
  on_hit :: "LinkMapping list \<Rightarrow> nat \<Rightarrow> CacheEntry \<Rightarrow> outcome"

text \<open>
  Modelled from the spec: the state of the service (sections 2 and 9), which is in no
  source file: the store, the cache in front of it, most recently used entry first, and
  the hits counted but not yet flushed to the store ("per-key atomic counters flushed
  on an interval").
\<close>

record service =
  store :: "LinkMapping list"
  cache :: "CacheEntry list"
  pendingHits :: "string list"

text \<open>Modelled from the spec: the service before any request; no source file has it.\<close>

definition init :: service where
  "init = \<lparr>store = [], cache = [], pendingHits = []\<rparr>"

text \<open>
  Modelled from the spec: write-through invalidation (section 4.4), which is in no
  source file: "the corresponding cache entry must be invalidated synchronously as part
  of the mutating operation".
\<close>

definition invalidate :: "CacheEntry list \<Rightarrow> string \<Rightarrow> CacheEntry list" where
  "invalidate es c = filter (\<lambda>e. cachedCode e \<noteq> c) es"

text \<open>
  Modelled from the spec: the "maximum time-to-live per entry" of section 4.4, which is
  in no source file: an entry older than the time-to-live is no hit.
\<close>

definition fresh :: "policy \<Rightarrow> nat \<Rightarrow> CacheEntry \<Rightarrow> bool" where
  "fresh p now e = (now \<le> fetchedAt e + ttl p)"

text \<open>
  Modelled from the spec: the cache's read (section 4.4), which is in no source file: a
  hit is an entry for the code that is within its time-to-live.
\<close>

definition cache_lookup ::
  "policy \<Rightarrow> nat \<Rightarrow> CacheEntry list \<Rightarrow> string \<Rightarrow> CacheEntry option" where
  "cache_lookup p now es c = find (\<lambda>e. cachedCode e = c \<and> fresh p now e) es"

text \<open>
  Modelled from the spec: the cache's write and eviction (section 4.4), which are in no
  source file: "bounded-size, least-recently-used". The entry goes to the front, in
  place of any entry for its code, and what no longer fits is dropped from the back.
\<close>

definition populate :: "policy \<Rightarrow> CacheEntry list \<Rightarrow> CacheEntry \<Rightarrow> CacheEntry list" where
  "populate p es e = take (capacity p) (e # invalidate es (cachedCode e))"

subsection \<open>Resolution engine\<close>

text \<open>
  Modelled from the spec: the expiry test of the Resolution Engine (sections 4.3 and 8),
  which is in no source file: a mapping is expired when it has an "expiresAt in the
  past".
\<close>

definition expired :: "LinkMapping \<Rightarrow> nat \<Rightarrow> bool" where
  "expired m now = (case expiresAt m of None \<Rightarrow> False | Some t \<Rightarrow> t < now)"

text \<open>
  Modelled from the spec: the lookup of the Resolution Engine through the read-through
  cache (sections 4.3 and 4.4), which is in no source file. On a hit the answer is the
  policy's, the entry becomes the most recently used, and a redirect has a hit counted. "On miss, fetches from Mapping
  Store and populates cache": the state machine of section 4.3 runs on the store's
  mapping (absent, expired and disabled all answer NotFound); a resolved mapping
  answers with its target URL, enters the cache and has a hit counted for later.
\<close>

definition resolve :: "policy \<Rightarrow> nat \<Rightarrow> service \<Rightarrow> string \<Rightarrow> outcome \<times> service" where
  "resolve p now st c =
     (case cache_lookup p now (cache st) c of
        Some e \<Rightarrow>
          (case on_hit p (store st) now e of
             Redirect u \<Rightarrow>
               (Redirect u, st\<lparr>cache := populate p (cache st) e,
                              pendingHits := pendingHits st @ [c]\<rparr>)
           | Failed f \<Rightarrow> (Failed f, st\<lparr>cache := populate p (cache st) e\<rparr>))
      | None \<Rightarrow>
          (case store_lookup (store st) c of
             None \<Rightarrow> (Failed NotFound, st)
           | Some m \<Rightarrow>
               if expired m now then (Failed NotFound, st)
               else if disabled m then (Failed NotFound, st)
               else (Redirect (targetURL m),
                     st\<lparr>cache := populate p (cache st)
                                  \<lparr>cachedCode = c, cachedURL = targetURL m, fetchedAt = now\<rparr>,
                        pendingHits := pendingHits st @ [c]\<rparr>)))"

subsection \<open>Ingestion API\<close>

text \<open>
  Modelled from the spec: creation (sections 4.5 and 6), which is in no source file:
  "Validates targetURL [...], optional custom shortCode (must not collide - Conflict if
  taken), optional expiresAt (must be future-dated). Delegates ID allocation to Code
  Generator when no custom code given. Persists via Mapping Store." The arguments are
  the time, the requester, the state, the target URL, the custom code and the expiry;
  the result is the assigned short code and the new state.
\<close>

definition create ::
  "policy \<Rightarrow> nat \<Rightarrow> string \<Rightarrow> service \<Rightarrow> string \<Rightarrow> string option \<Rightarrow> nat option
     \<Rightarrow> failure + string \<times> service" where
  "create p now who st url custom exp =
     (if \<not> valid_url p url then Inl ValidationError
      else if (case exp of None \<Rightarrow> False | Some t \<Rightarrow> t \<le> now) then Inl ValidationError
      else
        (case (case custom of
                 Some c \<Rightarrow> Inr c
               | None \<Rightarrow> fst (generate (candidate p) (max_attempts p) (store st))) of
           Inl e \<Rightarrow> Inl e
         | Inr c \<Rightarrow>
             (case store_create (store st)
                     \<lparr>shortCode = c, targetURL = url, createdAt = now, expiresAt = exp,
                      hitCount = 0, disabled = False, owner = who\<rparr> of
                Inl e \<Rightarrow> Inl e
              | Inr s' \<Rightarrow> Inr (c, st\<lparr>store := s'\<rparr>))))"

text \<open>
  Modelled from the spec: update (sections 4.4, 4.5 and 6), which is in no source file:
  "Disable/update operations require the recorded owner identity to match the
  requester", the new target URL is validated as at creation, and the cache entry of the
  code is invalidated with the write. The short code is "immutable once assigned": the
  write changes the target URL only.
\<close>

definition update ::
  "policy \<Rightarrow> string \<Rightarrow> service \<Rightarrow> string \<Rightarrow> string \<Rightarrow> failure + string \<times> service" where
  "update p who st c url =
     (case store_lookup (store st) c of
        None \<Rightarrow> Inl NotFound
      | Some m \<Rightarrow>
          if owner m \<noteq> who then Inl Unauthorized
          else if \<not> valid_url p url then Inl ValidationError
          else Inr (c, st\<lparr>store := store_write (store st) c (\<lambda>m. m\<lparr>targetURL := url\<rparr>),
                          cache := invalidate (cache st) c\<rparr>))"

text \<open>
  Modelled from the spec: disable (sections 3, 4.4, 4.5 and 6), which is in no source
  file: owner-authorized, a soft disable ("soft-disable preferred over hard delete")
  that sets the mapping's flag and invalidates the cache entry of the code.
\<close>

definition disable :: "string \<Rightarrow> service \<Rightarrow> string \<Rightarrow> failure + string \<times> service" where
  "disable who st c =
     (case store_lookup (store st) c of
        None \<Rightarrow> Inl NotFound
      | Some m \<Rightarrow>
          if owner m \<noteq> who then Inl Unauthorized
          else Inr (c, st\<lparr>store := store_write (store st) c (\<lambda>m. m\<lparr>disabled := True\<rparr>),
                          cache := invalidate (cache st) c\<rparr>))"

subsection \<open>Histories\<close>

text \<open>
  Modelled from the spec: the requests of section 6, which are in no source file:
  creation, update, disable and the redirect endpoint, each with the arguments of the
  operation above that serves it.
\<close>

datatype event =
    Create nat string string "string option" "nat option"
  | Update string string string
  | Disable string string
  | Resolve nat string

text \<open>
  Modelled from the spec: the service serving one request (section 6), which is in no
  source file: a request that fails leaves the state as it was.
\<close>

fun step :: "policy \<Rightarrow> service \<Rightarrow> event \<Rightarrow> service" where
  "step p st (Create now who url custom exp) =
     (case create p now who st url custom exp of Inl e \<Rightarrow> st | Inr (c, st') \<Rightarrow> st')"
| "step p st (Update who c url) =
     (case update p who st c url of Inl e \<Rightarrow> st | Inr (c', st') \<Rightarrow> st')"
| "step p st (Disable who c) =
     (case disable who st c of Inl e \<Rightarrow> st | Inr (c', st') \<Rightarrow> st')"
| "step p st (Resolve now c) = snd (resolve p now st c)"

text \<open>
  Modelled from the spec: the service serving a history of requests in order; no source
  file has it. The states \<open>run p init evs\<close> are the states the service can be in.
\<close>

fun run :: "policy \<Rightarrow> service \<Rightarrow> event list \<Rightarrow> service" where
  "run p st [] = st"
| "run p st (ev # evs) = run p (step p st ev) evs"

text \<open>
  Modelled from the spec: the short codes assigned so far, in the order of their
  assignment; no source file has it.
\<close>

definition codes :: "service \<Rightarrow> string list" where
  "codes st = map shortCode (store st)"

text \<open>
  Modelled from the spec: the cache is "derived, disposable, never authoritative; store
  is source of truth" (section 3): every cached code is a code of the store. No source
  file has it.
\<close>

definition cache_backed :: "service \<Rightarrow> bool" where
  "cache_backed st = (\<forall>e \<in> set (cache st). cachedCode e \<in> set (codes st))"

subsection \<open>A deployment and a history to run the service on\<close>

text \<open>
  A policy that accepts \<^verbatim>\<open>https\<close> URLs, tries the code \<^verbatim>\<open>abc123\<close> first
  and \<^verbatim>\<open>k7Q\<close> at every later attempt, makes at most three attempts, and on a
  cache hit redirects to the cached URL; and a history that creates \<^verbatim>\<open>abc123\<close>
  as a custom code and resolves it.
\<close>

definition demo_policy :: policy where
  "demo_policy =
     \<lparr>valid_url = (\<lambda>u. take 8 u = ''https://''),
      candidate = (\<lambda>i. if i = 0 then ''abc123'' else ''k7Q''),
      max_attempts = 3,
      ttl = 60,
      capacity = 2,
      on_hit = (\<lambda>s now e. Redirect (cachedURL e))\<rparr>"

definition demo_history :: "event list" where
  "demo_history =
     [Create 1 ''amy'' ''https://example.com'' (Some ''abc123'') None,
      Resolve 2 ''abc123'']"

definition demo_store :: "LinkMapping list" where
  "demo_store =
     [\<lparr>shortCode = ''abc123'', targetURL = ''https://example.com'', createdAt = 1,
       expiresAt = None, hitCount = 0, disabled = False, owner = ''amy''\<rparr>,
      \<lparr>shortCode = ''k7Q'', targetURL = ''https://example.org'', createdAt = 5,
       expiresAt = Some 9, hitCount = 0, disabled = False, owner = ''bob''\<rparr>]"

section \<open>Properties of the module\<close>

lemma map_of_dict_store: "map_of (dict_store d k v) = (map_of d)(k \<mapsto> v)"
  by (induction d k v rule: dict_store.induct) auto

lemma exec_conf_py: "exec_module w ns conf_py = Inr (store_all ns conf_bindings, [])"
  by (simp add: conf_py_def conf_bindings_def)

lemma assigned_names_conf_py: "assigned_names conf_py = map fst conf_bindings"
  by (simp add: conf_py_def conf_bindings_def)

lemma setting_conf: "setting w ns n = map_of (store_all ns conf_bindings) n"
  by (simp add: setting_def exec_conf_py)

lemma conf_settings_eq:
  "conf_settings w ns = Inr (map (\<lambda>(n, v). (n, Some v)) conf_bindings, [])"
  by (simp add: conf_settings_def exec_conf_py assigned_names_conf_py)
     (simp add: conf_bindings_def map_of_dict_store)

lemma conf_py_calls_nothing: "filter is_call (concat (map stmt_exprs conf_py)) = []"
  by (simp add: conf_py_def)

lemma conf_py_reads_no_name: "filter is_name (concat (map stmt_exprs conf_py)) = []"
  by (simp add: conf_py_def)

text \<open>
  Claim C1. The module is nothing but constant bindings: each of its statements is an
  assignment of a literal or a display of literals; it defines no function and calls
  nothing; run in any world and any starting namespace it raises nothing, makes no
  call (the trace is empty) and stores exactly the fourteen values of
  \<open>conf_bindings\<close>, each a value built of strings, booleans, lists and dicts.
\<close>

theorem conf_py_only_constant_bindings:
  "list_all constant_binding conf_py
   \<and> filter is_function_def conf_py = []
   \<and> filter is_call (concat (map stmt_exprs conf_py)) = []
   \<and> exec_module w ns conf_py = Inr (store_all ns conf_bindings, [])
   \<and> assigned_names conf_py = map fst conf_bindings
   \<and> length conf_bindings = 14
   \<and> list_all data_value (map snd conf_bindings)"
proof -
  have "list_all constant_binding conf_py"
    by (simp add: conf_py_def)
  moreover have "filter is_function_def conf_py = []"
    by (simp add: conf_py_def)
  moreover have "length conf_bindings = 14"
    by (simp add: conf_bindings_def)
  moreover have "list_all data_value (map snd conf_bindings)"
    by (simp add: conf_bindings_def data_value_def)
  ultimately show ?thesis
    using conf_py_calls_nothing exec_conf_py assigned_names_conf_py by blast
qed

text \<open>
  Claim C9. Whatever the world and the starting namespace, \<^verbatim>\<open>extensions\<close> is
  the list of exactly three names \<^verbatim>\<open>myst_parser\<close>, \<^verbatim>\<open>sphinx_rtd_theme\<close>
  and \<^verbatim>\<open>sphinx_toolbox.collapse\<close>; \<^verbatim>\<open>sphinx_togglebutton\<close> is not an
  element of it and is no string of any value the module binds. The source line that
  holds the name is a comment: the name stands in the line, and the line's code part is
  four blanks.
\<close>

theorem conf_extensions:
  "\<exists>exts. setting w ns ''extensions'' = Some exts
     \<and> elements exts =
         [VStr ''myst_parser'', VStr ''sphinx_rtd_theme'', VStr ''sphinx_toolbox.collapse'']
     \<and> length (elements exts) = 3
     \<and> VStr ''sphinx_togglebutton'' \<notin> set (elements exts)
     \<and> filter (\<lambda>v. v = VStr ''sphinx_togglebutton'')
          (concat (map (\<lambda>(n, v). subvalues v) conf_bindings)) = []
     \<and> contains conf_py_line_22 ''sphinx_togglebutton''
     \<and> code_part None conf_py_line_22 = ''    ''"
proof -
  have "setting w ns ''extensions'' = Some (VList
      [VStr ''myst_parser'', VStr ''sphinx_rtd_theme'', VStr ''sphinx_toolbox.collapse''])"
    by (simp add: setting_conf conf_bindings_def map_of_dict_store)
  moreover have "filter (\<lambda>v. v = VStr ''sphinx_togglebutton'')
      (concat (map (\<lambda>(n, v). subvalues v) conf_bindings)) = []"
    by (simp add: conf_bindings_def)
  moreover have "contains conf_py_line_22 ''sphinx_togglebutton''"
    by (simp add: conf_py_line_22_def)
  moreover have "code_part None conf_py_line_22 = ''    ''"
    by (simp add: conf_py_line_22_def)
  ultimately show ?thesis
    by simp
qed

text \<open>
  Claim C10. \<^verbatim>\<open>source_suffix\<close> maps \<^verbatim>\<open>.txt\<close> to the \<^verbatim>\<open>markdown\<close>
  parser, so the name \<^verbatim>\<open>requirements.txt\<close> fits a source suffix and would be
  parsed as markdown; \<^verbatim>\<open>requirements.txt\<close> is an element of
  \<^verbatim>\<open>exclude_patterns\<close>, none of whose patterns has a glob character, so the
  file is excluded and is no source document of the build.
\<close>

theorem requirements_txt_excluded:
  "\<exists>suffixes patterns.
       setting w ns ''source_suffix'' = Some suffixes
     \<and> setting w ns ''exclude_patterns'' = Some patterns
     \<and> dict_get suffixes (VStr ''.txt'') = Some (VStr ''markdown'')
     \<and> ends_with ''requirements.txt'' ''.txt''
     \<and> suffix_parser (dict_items suffixes) ''requirements.txt'' = Some (VStr ''markdown'')
     \<and> VStr ''requirements.txt'' \<in> set (elements patterns)
     \<and> list_all glob_free (elements patterns)
     \<and> excluded patterns ''requirements.txt''
     \<and> build_source suffixes patterns ''requirements.txt'' = None"
proof -
  have "setting w ns ''source_suffix'' = Some (VDict
      [(VStr ''.rst'', VStr ''restructuredtext''),
       (VStr ''.txt'', VStr ''markdown''),
       (VStr ''.md'', VStr ''markdown'')])"
    by (simp add: setting_conf conf_bindings_def map_of_dict_store)
  moreover have "setting w ns ''exclude_patterns'' = Some (VList
      [VStr ''_build'', VStr ''Thumbs.db'', VStr ''.DS_Store'', VStr ''requirements.txt''])"
    by (simp add: setting_conf conf_bindings_def map_of_dict_store)
  ultimately show ?thesis
    by (simp add: dict_get_def ends_with_def glob_free_def excluded_def build_source_def)
qed

text \<open>
  Claim C8. Running the module is deterministic and independent of its inputs: for
  any two worlds and any two starting namespaces the run succeeds with the same value
  for every name the module binds and with an empty trace of calls; no expression of
  the module reads a name or makes a call, which are the only two ways an expression
  can consult the namespace it starts in or the world.
\<close>

theorem conf_py_deterministic:
  "conf_settings w1 ns1 = conf_settings w2 ns2
   \<and> (\<exists>s. conf_settings w1 ns1 = Inr (s, []) \<and> map fst s = assigned_names conf_py)
   \<and> filter is_name (concat (map stmt_exprs conf_py)) = []
   \<and> filter is_call (concat (map stmt_exprs conf_py)) = []"
proof -
  have "conf_settings w1 ns1 = conf_settings w2 ns2"
    by (simp add: conf_settings_eq)
  moreover have "\<exists>s. conf_settings w1 ns1 = Inr (s, []) \<and> map fst s = assigned_names conf_py"
    by (simp add: conf_settings_eq assigned_names_conf_py) (simp add: conf_bindings_def)
  ultimately show ?thesis
    using conf_py_reads_no_name conf_py_calls_nothing by blast
qed

text \<open>
  Claim C7. The module binds \<^verbatim>\<open>project\<close> to \<^verbatim>\<open>Go-Short-Link\<close>, and in
  \<^verbatim>\<open>html_context\<close> the key \<^verbatim>\<open>github_user\<close> to \<^verbatim>\<open>fanonwue\<close> and
  \<^verbatim>\<open>github_repo\<close> to \<^verbatim>\<open>go-short-link\<close>. Of the fourteen settings, the
  ones whose name or value holds the word "short" (in any letter case) are
  \<^verbatim>\<open>project\<close> and \<^verbatim>\<open>html_context\<close> alone, and inside \<^verbatim>\<open>html_context\<close>
  the one entry that holds it is \<^verbatim>\<open>github_repo\<close>.
\<close>

theorem conf_py_domain_signal:
  "setting w ns ''project'' = Some (VStr ''Go-Short-Link'')
   \<and> (\<exists>ctx. setting w ns ''html_context'' = Some ctx
        \<and> dict_get ctx (VStr ''github_user'') = Some (VStr ''fanonwue'')
        \<and> dict_get ctx (VStr ''github_repo'') = Some (VStr ''go-short-link'')
        \<and> map fst (filter (\<lambda>(k, v). mentions ''short'' k \<or> mentions ''short'' v)
             (dict_items ctx)) = [VStr ''github_repo''])
   \<and> (\<exists>s. conf_settings w ns = Inr (s, [])
        \<and> map fst (filter (setting_mentions ''short'') s) = [''project'', ''html_context''])"
proof -
  have "setting w ns ''project'' = Some (VStr ''Go-Short-Link'')"
    by (simp add: setting_conf conf_bindings_def map_of_dict_store)
  moreover have "\<exists>ctx. setting w ns ''html_context'' = Some ctx
      \<and> dict_get ctx (VStr ''github_user'') = Some (VStr ''fanonwue'')
      \<and> dict_get ctx (VStr ''github_repo'') = Some (VStr ''go-short-link'')
      \<and> map fst (filter (\<lambda>(k, v). mentions ''short'' k \<or> mentions ''short'' v)
           (dict_items ctx)) = [VStr ''github_repo'']"
    by (simp add: setting_conf conf_bindings_def map_of_dict_store dict_get_def
        mentions_def strings_of_def ascii_lower_def)
  moreover have "\<exists>s. conf_settings w ns = Inr (s, [])
      \<and> map fst (filter (setting_mentions ''short'') s) = [''project'', ''html_context'']"
    by (simp add: conf_settings_eq conf_bindings_def mentions_def strings_of_def
        ascii_lower_def)
  ultimately show ?thesis
    by blast
qed

text \<open>
  Claim C2, as stated, says the module sets exactly four kinds of settings: the theme
  (\<^verbatim>\<open>html_theme\<close>), the extensions (\<^verbatim>\<open>extensions\<close>,
  \<^verbatim>\<open>myst_enable_extensions\<close>), the file associations (\<^verbatim>\<open>source_suffix\<close>)
  and the GitHub link metadata (\<^verbatim>\<open>html_context\<close>). The module binds more than
  these five names: \<^verbatim>\<open>project\<close>, the first statement of the section the file
  itself heads "Project information", is one of its settings and is none of the five.
\<close>

theorem conf_py_sets_more_than_four_kinds:
  "''project'' \<in> set (assigned_names conf_py)
   \<and> ''project'' \<notin> {''html_theme'', ''extensions'', ''myst_enable_extensions'',
        ''source_suffix'', ''html_context''}
   \<and> set (assigned_names conf_py) \<noteq> {''html_theme'', ''extensions'',
        ''myst_enable_extensions'', ''source_suffix'', ''html_context''}"
proof -
  have a: "''project'' \<in> set (assigned_names conf_py)"
    by (simp add: conf_py_def)
  have b: "''project'' \<notin> {''html_theme'', ''extensions'', ''myst_enable_extensions'',
      ''source_suffix'', ''html_context''}"
    by simp
  from a b show ?thesis
    by metis
qed

text \<open>
  Claim C2, amended. The module sets the four kinds of settings the claim names, with
  precisely the claimed values, whatever the world and the starting namespace: the
  theme is \<^verbatim>\<open>sphinx_rtd_theme\<close>; \<^verbatim>\<open>extensions\<close> and
  \<^verbatim>\<open>myst_enable_extensions\<close> are the lists of the file; \<^verbatim>\<open>source_suffix\<close>
  maps \<^verbatim>\<open>.rst\<close> to \<^verbatim>\<open>restructuredtext\<close> and \<^verbatim>\<open>.txt\<close> and
  \<^verbatim>\<open>.md\<close> to \<^verbatim>\<open>markdown\<close>, and has no other key;
  \<^verbatim>\<open>html_context\<close> has \<^verbatim>\<open>display_github\<close> true. They are not all the
  module sets: it binds fourteen names, the other nine being the project information
  and the template, exclusion, static, style sheet and script paths.
\<close>

theorem conf_py_four_kinds_values:
  "assigned_names conf_py =
     [''project'', ''copyright'', ''author'', ''version'', ''extensions'',
      ''templates_path'', ''exclude_patterns'', ''html_theme'', ''html_static_path'',
      ''html_css_files'', ''html_js_files'', ''source_suffix'',
      ''myst_enable_extensions'', ''html_context'']
   \<and> setting w ns ''html_theme'' = Some (VStr ''sphinx_rtd_theme'')
   \<and> setting w ns ''extensions'' = Some (VList
        [VStr ''myst_parser'', VStr ''sphinx_rtd_theme'', VStr ''sphinx_toolbox.collapse''])
   \<and> setting w ns ''myst_enable_extensions'' = Some (VList
        [VStr ''amsmath'', VStr ''attrs_inline'', VStr ''colon_fence'', VStr ''deflist'',
         VStr ''dollarmath'', VStr ''fieldlist'', VStr ''html_admonition'',
         VStr ''html_image'', VStr ''linkify'', VStr ''replacements'', VStr ''smartquotes'',
         VStr ''strikethrough'', VStr ''substitution'', VStr ''tasklist''])
   \<and> setting w ns ''source_suffix'' = Some (VDict
        [(VStr ''.rst'', VStr ''restructuredtext''),
         (VStr ''.txt'', VStr ''markdown''),
         (VStr ''.md'', VStr ''markdown'')])
   \<and> (\<exists>ctx. setting w ns ''html_context'' = Some ctx
        \<and> dict_get ctx (VStr ''display_github'') = Some (VBool True))"
proof -
  have "assigned_names conf_py =
     [''project'', ''copyright'', ''author'', ''version'', ''extensions'',
      ''templates_path'', ''exclude_patterns'', ''html_theme'', ''html_static_path'',
      ''html_css_files'', ''html_js_files'', ''source_suffix'',
      ''myst_enable_extensions'', ''html_context'']"
    by (simp add: conf_py_def)
  moreover have "setting w ns ''html_theme'' = Some (VStr ''sphinx_rtd_theme'')"
    by (simp add: setting_conf conf_bindings_def map_of_dict_store)
  moreover have "setting w ns ''extensions'' = Some (VList
        [VStr ''myst_parser'', VStr ''sphinx_rtd_theme'', VStr ''sphinx_toolbox.collapse''])"
    by (simp add: setting_conf conf_bindings_def map_of_dict_store)
  moreover have "setting w ns ''myst_enable_extensions'' = Some (VList
        [VStr ''amsmath'', VStr ''attrs_inline'', VStr ''colon_fence'', VStr ''deflist'',
         VStr ''dollarmath'', VStr ''fieldlist'', VStr ''html_admonition'',
         VStr ''html_image'', VStr ''linkify'', VStr ''replacements'', VStr ''smartquotes'',
         VStr ''strikethrough'', VStr ''substitution'', VStr ''tasklist''])"
    by (simp add: setting_conf conf_bindings_def map_of_dict_store)
  moreover have "setting w ns ''source_suffix'' = Some (VDict
        [(VStr ''.rst'', VStr ''restructuredtext''),
         (VStr ''.txt'', VStr ''markdown''),
         (VStr ''.md'', VStr ''markdown'')])"
    by (simp add: setting_conf conf_bindings_def map_of_dict_store)
  moreover have "\<exists>ctx. setting w ns ''html_context'' = Some ctx
        \<and> dict_get ctx (VStr ''display_github'') = Some (VBool True)"
    by (simp add: setting_conf conf_bindings_def map_of_dict_store dict_get_def)
  ultimately show ?thesis
    by blast
qed

section \<open>Properties of the service the specification describes\<close>

lemma generate_from_attempts:
  "i \<le> bound \<Longrightarrow> snd (generate_from cand bound s i) \<le> bound"
proof (induction cand bound s i rule: generate_from.induct)
  case (1 cand bound s i)
  then show ?case
    by (subst generate_from.simps) auto
qed

lemma generate_from_result:
  "fst (generate_from cand bound s i) = Inl ExhaustionError
   \<or> (\<exists>c. fst (generate_from cand bound s i) = Inr c \<and> store_lookup s c = None)"
proof (induction cand bound s i rule: generate_from.induct)
  case (1 cand bound s i)
  then show ?case
    by (subst (1 2) generate_from.simps) auto
qed

lemma generate_from_saturated:
  "i \<le> bound \<Longrightarrow> \<forall>j. i \<le> j \<and> j < bound \<longrightarrow> store_lookup s (cand j) \<noteq> None
   \<Longrightarrow> generate_from cand bound s i = (Inl ExhaustionError, bound)"
proof (induction cand bound s i rule: generate_from.induct)
  case (1 cand bound s i)
  show ?case
  proof (cases "bound \<le> i")
    case True
    with "1.prems" show ?thesis
      by (subst generate_from.simps) simp
  next
    case False
    then have taken: "store_lookup s (cand i) \<noteq> None"
      using "1.prems" by simp
    have "generate_from cand bound s (Suc i) = (Inl ExhaustionError, bound)"
      using False taken "1.prems" by (intro "1.IH") auto
    with False taken show ?thesis
      by (subst generate_from.simps) simp
  qed
qed

lemma generate_from_free:
  "i < bound \<Longrightarrow> store_lookup s (cand k) = None \<Longrightarrow> i \<le> k \<Longrightarrow> k < bound
   \<Longrightarrow> \<exists>c. fst (generate_from cand bound s i) = Inr c"
proof (induction cand bound s i rule: generate_from.induct)
  case (1 cand bound s i)
  show ?case
  proof (cases "store_lookup s (cand i) = None")
    case True
    with "1.prems" show ?thesis
      by (subst generate_from.simps) simp
  next
    case False
    with "1.prems" have "i \<noteq> k" by auto
    with "1.prems" have "Suc i \<le> k" "Suc i < bound" by auto
    with False "1.prems" have "\<exists>c. fst (generate_from cand bound s (Suc i)) = Inr c"
      by (intro "1.IH") auto
    with False "1.prems" show ?thesis
      by (subst generate_from.simps) simp
  qed
qed

text \<open>
  Claim C6. The code generator's retry loop ends for every cand source, bound and
  store (it is a total function: the attempts left decrease with each retry). It makes
  at most \<open>max_attempts\<close> attempts; it ends either with ExhaustionError or with a
  code that is not in the store; and when every cand within the bound is taken, it
  ends with ExhaustionError after exactly \<open>max_attempts\<close> attempts.
\<close>

theorem generate_terminates_bounded:
  "snd (generate cand bound s) \<le> bound
   \<and> (fst (generate cand bound s) = Inl ExhaustionError
      \<or> (\<exists>c. fst (generate cand bound s) = Inr c \<and> store_lookup s c = None))
   \<and> ((\<forall>j < bound. store_lookup s (cand j) \<noteq> None)
        \<longrightarrow> generate cand bound s = (Inl ExhaustionError, bound))"
  unfolding generate_def
  using generate_from_attempts [of 0 bound cand s]
    generate_from_result [of cand bound s 0]
    generate_from_saturated [of 0 bound s cand]
  by auto

theorem generate_terminates_bounded_witness:
  "store_lookup demo_store (candidate demo_policy 0) \<noteq> None
   \<and> store_lookup demo_store (candidate demo_policy 1) \<noteq> None
   \<and> store_lookup demo_store (candidate demo_policy 2) \<noteq> None
   \<and> generate (candidate demo_policy) 3 demo_store = (Inl ExhaustionError, 3)"
proof -
  have taken: "store_lookup demo_store (candidate demo_policy j) \<noteq> None" for j
    by (simp add: store_lookup_def demo_store_def demo_policy_def)
  then have "\<forall>j < 3. store_lookup demo_store (candidate demo_policy j) \<noteq> None"
    by simp
  with generate_terminates_bounded [of "candidate demo_policy" 3 demo_store] taken
  show ?thesis
    by blast
qed

lemma store_lookup_None: "store_lookup s c = None \<longleftrightarrow> c \<notin> set (map shortCode s)"
  by (auto simp: store_lookup_def find_None_iff)

lemma codes_store_write:
  "map shortCode (store_write s c (\<lambda>m. m\<lparr>targetURL := u\<rparr>)) = map shortCode s"
  "map shortCode (store_write s c (\<lambda>m. m\<lparr>disabled := True\<rparr>)) = map shortCode s"
  by (simp_all add: store_write_def)

lemma create_codes:
  "create p now who st url custom exp = Inr (c, st')
   \<Longrightarrow> codes st' = codes st @ [c] \<and> c \<notin> set (codes st) \<and> cache st' = cache st"
  by (auto simp: create_def codes_def store_create_def store_lookup_None
      split: if_splits sum.splits option.splits)

lemma update_codes:
  "update p who st c url = Inr (c', st') \<Longrightarrow> codes st' = codes st"
  by (auto simp: update_def codes_def codes_store_write split: if_splits option.splits)

lemma disable_codes:
  "disable who st c = Inr (c', st') \<Longrightarrow> codes st' = codes st"
  by (auto simp: disable_def codes_def codes_store_write split: if_splits option.splits)

lemma resolve_codes: "codes (snd (resolve p now st c)) = codes st"
  by (simp add: resolve_def codes_def split: option.splits outcome.splits)

lemma step_codes:
  "codes (step p st ev) = codes st
   \<or> (\<exists>c. codes (step p st ev) = codes st @ [c] \<and> c \<notin> set (codes st))"
proof (cases ev)
  case (Create now who url custom exp)
  then show ?thesis
    by (auto split: sum.splits dest: create_codes)
next
  case (Update who c url)
  then show ?thesis
    by (auto split: sum.splits dest: update_codes)
next
  case (Disable who c)
  then show ?thesis
    by (auto split: sum.splits dest: disable_codes)
next
  case (Resolve now c)
  then show ?thesis
    by (simp add: resolve_codes)
qed

lemma step_distinct: "distinct (codes st) \<Longrightarrow> distinct (codes (step p st ev))"
  using step_codes [of p st ev] by auto

lemma step_keeps: "take (length (codes st)) (codes (step p st ev)) = codes st"
  using step_codes [of p st ev] by auto

lemma step_length: "length (codes st) \<le> length (codes (step p st ev))"
  using step_codes [of p st ev] by auto

lemma run_distinct: "distinct (codes st) \<Longrightarrow> distinct (codes (run p st evs))"
  by (induction evs arbitrary: st) (auto simp: step_distinct)

lemma run_keeps: "take (length (codes st)) (codes (run p st evs)) = codes st"
proof (induction evs arbitrary: st)
  case Nil
  then show ?case by simp
next
  case (Cons ev evs)
  have "take (length (codes st)) (codes (run p (step p st ev) evs))
      = take (length (codes st)) (take (length (codes (step p st ev))) (codes (run p (step p st ev) evs)))"
    using step_length [of st p ev] by (simp add: min_def)
  also have "\<dots> = take (length (codes st)) (codes (step p st ev))"
    by (simp only: Cons.IH)
  also have "\<dots> = codes st"
    by (rule step_keeps)
  finally show ?case by simp
qed

lemma run_append: "run p st (evs @ evs') = run p (run p st evs) evs'"
  by (induction evs arbitrary: st) auto

lemma distinct_count: "distinct (map f xs) \<Longrightarrow> length (filter (\<lambda>x. f x = c) xs) \<le> 1"
proof (induction xs)
  case Nil
  then show ?case by simp
next
  case (Cons a xs)
  show ?case
  proof (cases "f a = c")
    case True
    with Cons.prems have "filter (\<lambda>x. f x = c) xs = []"
      by (auto simp: filter_empty_conv image_iff)
    with True show ?thesis by simp
  next
    case False
    with Cons show ?thesis by simp
  qed
qed

text \<open>
  Claim C5. In every state the service can be in, after any history of create, update,
  disable and resolve requests, no short code stands in the store twice, so a short code
  identifies at most one mapping and with it at most one target URL; and whatever
  requests follow, the short codes assigned so far stay, each in its place: no request
  changes or removes a short code.
\<close>

theorem short_codes_unique_and_permanent:
  "distinct (codes (run p init evs))
   \<and> length (filter (\<lambda>m. shortCode m = c) (store (run p init evs))) \<le> 1
   \<and> take (length (codes (run p init evs))) (codes (run p init (evs @ evs')))
       = codes (run p init evs)"
proof -
  have d: "distinct (codes (run p init evs))"
    by (rule run_distinct) (simp add: codes_def init_def)
  then have "length (filter (\<lambda>m. shortCode m = c) (store (run p init evs))) \<le> 1"
    unfolding codes_def by (rule distinct_count)
  with d show ?thesis
    by (simp add: run_append run_keeps)
qed

lemma store_lookup_Some: "store_lookup s c = Some m \<Longrightarrow> m \<in> set s \<and> shortCode m = c"
  by (auto simp: store_lookup_def find_Some_iff)

lemma cache_lookup_Some: "cache_lookup p now es c = Some e \<Longrightarrow> e \<in> set es"
  by (auto simp: cache_lookup_def find_Some_iff)

lemma populate_subset: "set (populate p es e) \<subseteq> insert e (set es)"
proof -
  have "set (populate p es e) \<subseteq> set (e # invalidate es (cachedCode e))"
    unfolding populate_def by (rule set_take_subset)
  then show ?thesis
    by (auto simp: invalidate_def)
qed

lemma update_cache: "update p who st c url = Inr (c', st') \<Longrightarrow> set (cache st') \<subseteq> set (cache st)"
  by (auto simp: update_def invalidate_def split: if_splits option.splits)

lemma disable_cache: "disable who st c = Inr (c', st') \<Longrightarrow> set (cache st') \<subseteq> set (cache st)"
  by (auto simp: disable_def invalidate_def split: if_splits option.splits)

lemma cache_backed_create:
  "cache_backed st \<Longrightarrow> create p now who st url custom exp = Inr (c, st') \<Longrightarrow> cache_backed st'"
  by (drule create_codes) (auto simp: cache_backed_def)

lemma cache_backed_update:
  "cache_backed st \<Longrightarrow> update p who st c url = Inr (c', st') \<Longrightarrow> cache_backed st'"
  using update_codes [of p who st c url c' st'] update_cache [of p who st c url c' st']
  by (auto simp: cache_backed_def)

lemma cache_backed_disable:
  "cache_backed st \<Longrightarrow> disable who st c = Inr (c', st') \<Longrightarrow> cache_backed st'"
  using disable_codes [of who st c c' st'] disable_cache [of who st c c' st']
  by (auto simp: cache_backed_def)

lemma resolve_cache:
  "e \<in> set (cache (snd (resolve p now st c)))
   \<Longrightarrow> e \<in> set (cache st) \<or> cachedCode e \<in> set (codes st)"
proof (cases "cache_lookup p now (cache st) c")
  case (Some h)
  assume "e \<in> set (cache (snd (resolve p now st c)))"
  with Some have "e \<in> set (populate p (cache st) h)"
    by (simp add: resolve_def split: outcome.splits)
  with populate_subset [of p "cache st" h] cache_lookup_Some [OF Some] show ?thesis
    by auto
next
  case None
  assume e: "e \<in> set (cache (snd (resolve p now st c)))"
  show ?thesis
  proof (cases "store_lookup (store st) c")
    case lookup_None: None
    with None e show ?thesis
      by (simp add: resolve_def)
  next
    case (Some m)
    then have c: "c \<in> set (codes st)"
      by (auto simp: codes_def dest: store_lookup_Some)
    let ?new = "\<lparr>cachedCode = c, cachedURL = targetURL m, fetchedAt = now\<rparr>"
    from None Some e have "e \<in> set (cache st) \<or> e \<in> set (populate p (cache st) ?new)"
      by (auto simp: resolve_def split: if_splits)
    with populate_subset [of p "cache st" ?new] c show ?thesis
      by auto
  qed
qed

lemma cache_backed_resolve: "cache_backed st \<Longrightarrow> cache_backed (snd (resolve p now st c))"
  unfolding cache_backed_def resolve_codes
  using resolve_cache [of _ p now st c] by blast

lemma cache_backed_step: "cache_backed st \<Longrightarrow> cache_backed (step p st ev)"
  by (cases ev)
     (auto split: sum.splits
       intro: cache_backed_create cache_backed_update cache_backed_disable cache_backed_resolve)

lemma cache_backed_run: "cache_backed st \<Longrightarrow> cache_backed (run p st evs)"
  by (induction evs arbitrary: st) (auto simp: cache_backed_step)

lemma cache_backed_init: "cache_backed init"
  by (simp add: cache_backed_def init_def)

lemma find_append_None: "find P xs = None \<Longrightarrow> find P (xs @ ys) = find P ys"
  by (induction xs) (auto split: if_splits)

lemma resolve_after_create:
  assumes backed: "cache_backed st"
    and created: "create p now who st url custom exp = Inr (c, st')"
  shows "fst (resolve p now st' c) = Redirect url"
proof -
  from created have fresh_code: "c \<notin> set (codes st)" and same_cache: "cache st' = cache st"
    by (auto dest: create_codes)
  from created obtain m where
    m: "m = \<lparr>shortCode = c, targetURL = url, createdAt = now, expiresAt = exp,
             hitCount = 0, disabled = False, owner = who\<rparr>"
    and st': "store st' = store st @ [m]"
    and future: "\<not> (case exp of None \<Rightarrow> False | Some t \<Rightarrow> t \<le> now)"
    by (auto simp: create_def store_create_def split: if_splits sum.splits option.splits)
  from backed fresh_code have "\<forall>e \<in> set (cache st). cachedCode e \<noteq> c"
    by (auto simp: cache_backed_def)
  then have miss: "cache_lookup p now (cache st') c = None"
    by (auto simp: cache_lookup_def same_cache find_None_iff)
  from fresh_code have "find (\<lambda>m. shortCode m = c) (store st) = None"
    by (auto simp: codes_def find_None_iff)
  then have found: "store_lookup (store st') c = Some m"
    by (simp add: store_lookup_def st' find_append_None m)
  from future have live: "\<not> expired m now"
    by (auto simp: expired_def m split: option.splits)
  from miss found live show ?thesis
    by (simp add: resolve_def m)
qed

lemma create_succeeds:
  assumes "valid_url p url"
    and "case exp of None \<Rightarrow> True | Some t \<Rightarrow> now < t"
    and "k < max_attempts p"
    and "candidate p k \<notin> set (codes st)"
  shows "\<exists>c st'. create p now who st url None exp = Inr (c, st')"
proof -
  from assms(3,4) obtain c where c: "fst (generate (candidate p) (max_attempts p) (store st)) = Inr c"
    using generate_from_free [of 0 "max_attempts p" "store st" "candidate p" k]
    by (auto simp: generate_def store_lookup_None codes_def)
  with generate_from_result [of "candidate p" "max_attempts p" "store st" 0]
  have "store_lookup (store st) c = None"
    by (auto simp: generate_def)
  with assms(1,2) c show ?thesis
    by (auto simp: create_def store_create_def split: option.splits)
qed

text \<open>
  Claim C3. In every state the service can be in, when a creation returns a short code,
  resolving that code at once (at the same time, in the state the creation left)
  redirects to the target URL that was created, whatever the policy answers on cache
  hits. And a creation without a custom code does return a short code when the target
  URL is valid, the expiry (if any) is in the future and one of the generator's
  candidates within its bound is free.
\<close>

theorem create_then_resolve:
  "(create p now who (run p init evs) url custom exp = Inr (c, st')
      \<longrightarrow> fst (resolve p now st' c) = Redirect url)
   \<and> (valid_url p url \<and> (case exp of None \<Rightarrow> True | Some t \<Rightarrow> now < t)
        \<and> k < max_attempts p \<and> candidate p k \<notin> set (codes (run p init evs))
      \<longrightarrow> (\<exists>c' st''. create p now who (run p init evs) url None exp = Inr (c', st'')
             \<and> fst (resolve p now st'' c') = Redirect url))"
proof -
  have backed: "cache_backed (run p init evs)"
    by (rule cache_backed_run) (rule cache_backed_init)
  show ?thesis
  proof (intro conjI impI)
    assume "create p now who (run p init evs) url custom exp = Inr (c, st')"
    with backed show "fst (resolve p now st' c) = Redirect url"
      by (rule resolve_after_create)
  next
    assume a: "valid_url p url \<and> (case exp of None \<Rightarrow> True | Some t \<Rightarrow> now < t)
        \<and> k < max_attempts p \<and> candidate p k \<notin> set (codes (run p init evs))"
    then obtain c' st'' where
      created: "create p now who (run p init evs) url None exp = Inr (c', st'')"
      using create_succeeds [where p = p and url = url and exp = exp and now = now and k = k
          and st = "run p init evs" and who = who] by auto
    with backed have "fst (resolve p now st'' c') = Redirect url"
      by (rule resolve_after_create)
    with created show "\<exists>c' st''. create p now who (run p init evs) url None exp = Inr (c', st'')
             \<and> fst (resolve p now st'' c') = Redirect url"
      by blast
  qed
qed

theorem create_then_resolve_witness:
  "valid_url demo_policy ''https://example.org''
   \<and> 1 < max_attempts demo_policy
   \<and> candidate demo_policy 1 \<notin> set (codes (run demo_policy init demo_history))
   \<and> (\<exists>c st'. create demo_policy 5 ''bob'' (run demo_policy init demo_history)
                 ''https://example.org'' None (Some 9) = Inr (c, st')
         \<and> fst (resolve demo_policy 5 st' c) = Redirect ''https://example.org'')"
proof -
  have a: "valid_url demo_policy ''https://example.org''"
    by (simp add: demo_policy_def)
  have b: "1 < max_attempts demo_policy"
    by (simp add: demo_policy_def)
  have c: "candidate demo_policy 1 \<notin> set (codes (run demo_policy init demo_history))"
    by (simp add: demo_policy_def demo_history_def init_def codes_def create_def
        store_create_def store_lookup_def resolve_def cache_lookup_def expired_def
        populate_def invalidate_def)
  have d: "case Some (9::nat) of None \<Rightarrow> True | Some t \<Rightarrow> 5 < t"
    by simp
  from a b c d
    create_then_resolve [where p = demo_policy and now = 5 and who = "''bob''"
      and evs = demo_history and url = "''https://example.org''" and exp = "Some 9" and k = 1]
  show ?thesis
    by blast
qed

end
